theory Spec2Isabelle
  imports Complex_Main
begin

section \<open>JavaScript numbers\<close>

text \<open>
  A JavaScript number is modelled as a real, one of the two infinities, or NaN. Finite
  arithmetic is exact (rounding and overflow of IEEE doubles are not modelled); the
  special values follow IEEE 754: NaN propagates through every operation, every
  comparison with NaN is false, \<open>Infinity - Infinity\<close>, \<open>0 * Infinity\<close>, \<open>0 / 0\<close> and
  \<open>Infinity / Infinity\<close> are NaN. Zero is unsigned; the only divisor in the programs is
  an array length, which is never \<open>-0\<close>.
\<close>

datatype jsnum = Fin real | PInf | NInf | NaN

fun jadd :: "jsnum \<Rightarrow> jsnum \<Rightarrow> jsnum" where
  "jadd NaN _ = NaN"
| "jadd _ NaN = NaN"
| "jadd (Fin a) (Fin b) = Fin (a + b)"
| "jadd PInf NInf = NaN"
| "jadd NInf PInf = NaN"
| "jadd PInf _ = PInf"
| "jadd _ PInf = PInf"
| "jadd NInf _ = NInf"
| "jadd _ NInf = NInf"

fun jneg :: "jsnum \<Rightarrow> jsnum" where
  "jneg (Fin a) = Fin (- a)"
| "jneg PInf = NInf"
| "jneg NInf = PInf"
| "jneg NaN = NaN"

definition jsub :: "jsnum \<Rightarrow> jsnum \<Rightarrow> jsnum" where
  "jsub a b = jadd a (jneg b)"

fun jmul :: "jsnum \<Rightarrow> jsnum \<Rightarrow> jsnum" where
  "jmul NaN _ = NaN"
| "jmul _ NaN = NaN"
| "jmul (Fin a) (Fin b) = Fin (a * b)"
| "jmul (Fin a) PInf = (if a = 0 then NaN else if 0 < a then PInf else NInf)"
| "jmul (Fin a) NInf = (if a = 0 then NaN else if 0 < a then NInf else PInf)"
| "jmul PInf (Fin b) = (if b = 0 then NaN else if 0 < b then PInf else NInf)"
| "jmul NInf (Fin b) = (if b = 0 then NaN else if 0 < b then NInf else PInf)"
| "jmul PInf PInf = PInf"
| "jmul NInf NInf = PInf"
| "jmul PInf NInf = NInf"
| "jmul NInf PInf = NInf"

fun jdiv :: "jsnum \<Rightarrow> jsnum \<Rightarrow> jsnum" where
  "jdiv NaN _ = NaN"
| "jdiv _ NaN = NaN"
| "jdiv (Fin a) (Fin b) =
     (if b = 0 then (if a = 0 then NaN else if 0 < a then PInf else NInf)
      else Fin (a / b))"
| "jdiv (Fin a) PInf = Fin 0"
| "jdiv (Fin a) NInf = Fin 0"
| "jdiv PInf (Fin b) = (if 0 \<le> b then PInf else NInf)"
| "jdiv NInf (Fin b) = (if 0 \<le> b then NInf else PInf)"
| "jdiv _ _ = NaN"

fun jlt :: "jsnum \<Rightarrow> jsnum \<Rightarrow> bool" where
  "jlt NaN _ = False"
| "jlt _ NaN = False"
| "jlt (Fin a) (Fin b) = (a < b)"
| "jlt _ NInf = False"
| "jlt NInf _ = True"
| "jlt PInf _ = False"
| "jlt _ PInf = True"

fun jle :: "jsnum \<Rightarrow> jsnum \<Rightarrow> bool" where
  "jle NaN _ = False"
| "jle _ NaN = False"
| "jle a b = (a = b \<or> jlt a b)"

definition jgt :: "jsnum \<Rightarrow> jsnum \<Rightarrow> bool" where
  "jgt a b = jlt b a"

definition jge :: "jsnum \<Rightarrow> jsnum \<Rightarrow> bool" where
  "jge a b = jle b a"

section \<open>Shared data: messages, alerts, the queue\<close>

text \<open>
  One frame of the combined kline stream, as the handler's first three statements see
  it. \<open>BadJson\<close>: \<open>JSON.parse\<close> throws. \<open>NoSymbol\<close>: \<open>msg.data.s.toLowerCase()\<close> throws
  (no \<open>data\<close>, or \<open>s\<close> is not a string). \<open>NoKline s\<close>: the symbol is read but
  \<open>msg.data.k\<close> is missing, so \<open>k.x\<close> throws. \<open>Kline s x c v\<close>: a kline for the
  lower-cased symbol \<open>s\<close> with closed flag \<open>k.x = x\<close>, \<open>parseFloat(k.c) = c\<close> and
  \<open>parseFloat(k.v) = v\<close> (\<open>parseFloat\<close> never throws; it gives NaN on a missing or
  non-numeric field).
\<close>

datatype ws_msg = BadJson | NoSymbol | NoKline string | Kline string bool jsnum jsnum

datatype js_error = SyntaxError | TypeError

text \<open>\<open>lastAlert[symbol].type\<close>: \<open>'high' | 'low' | null\<close>.\<close>

datatype alert_type = High | Low | Null

text \<open>
  A queued alert \<open>{ text }\<close>. The text is a function of the arguments of
  \<open>sendRsiAlert\<close> (symbol, the type recomputed from the value, value, price) or of
  \<open>sendVolumeAlert\<close> (symbol, notional volume; the average is not printed), so the
  alert is represented by those arguments.
\<close>

datatype pending_alert =
    RsiAlert string alert_type jsnum jsnum
  | VolumeAlert string jsnum

record dispatcher =
  alertQueue :: "pending_alert list"

record rsi_bot = dispatcher +
  closePrices :: "string \<rightharpoonup> jsnum list"
  lastAlert :: "string \<rightharpoonup> alert_type"

record volume_bot = dispatcher +
  volumeHistory :: "string \<rightharpoonup> jsnum list"

section \<open>The alert dispatcher (both programs)\<close>

text \<open>
  The outcome of one firing of the 1100 ms timer: nothing was queued, or
  \<open>bot.sendMessage\<close> was called on the shifted alert and its promise resolved
  (\<open>Delivered\<close>) or rejected (\<open>Failed\<close>: \<open>.catch(console.error)\<close> only logs).
\<close>

datatype delivery = Idle | Delivered pending_alert | Failed pending_alert

text \<open>\<open>setInterval\<close> callback; \<open>ok\<close> is whether the sink accepts the message.\<close>

definition drainTick :: "bool \<Rightarrow> 'a dispatcher_scheme \<Rightarrow> delivery \<times> 'a dispatcher_scheme" where
  "drainTick ok st =
     (case alertQueue st of
        [] \<Rightarrow> (Idle, st)
      | msg # rest \<Rightarrow>
          ((if ok then Delivered msg else Failed msg), st\<lparr>alertQueue := rest\<rparr>))"

text \<open>Consecutive timer firings, one sink outcome per firing.\<close>

fun drainTicks :: "bool list \<Rightarrow> 'a dispatcher_scheme \<Rightarrow> delivery list \<times> 'a dispatcher_scheme" where
  "drainTicks [] st = ([], st)"
| "drainTicks (ok # oks) st =
     (let (d, st1) = drainTick ok st; (ds, st2) = drainTicks oks st1 in (d # ds, st2))"

section \<open>The RSI program\<close>

definition rsiPeriod :: nat where "rsiPeriod = 15"
definition rsiUpper :: jsnum where "rsiUpper = Fin 80"
definition rsiLower :: jsnum where "rsiLower = Fin 20"

definition sendRsiAlert :: "string \<Rightarrow> jsnum \<Rightarrow> jsnum \<Rightarrow> rsi_bot \<Rightarrow> rsi_bot" where
  "sendRsiAlert symbol rsi price st =
     (let alertType = (if jgt rsi rsiUpper then High else Low)
      in st\<lparr>alertQueue := alertQueue st @ [RsiAlert symbol alertType rsi price]\<rparr>)"

text \<open>\<open>arr.push(x); if (arr.length > cap) arr.shift();\<close>\<close>

definition pushShift :: "nat \<Rightarrow> 'a list \<Rightarrow> 'a \<Rightarrow> 'a list" where
  "pushShift cap arr x = (let arr1 = arr @ [x] in if cap < length arr1 then tl arr1 else arr1)"

text \<open>\<open>rsi.at(-1)\<close>: the last element, \<open>undefined\<close> on an empty array.\<close>

definition at_last :: "'a list \<Rightarrow> 'a option" where
  "at_last xs = (if xs = [] then None else Some (last xs))"

text \<open>
  \<open>closePrices[symbol] ||= []\<close> and \<open>lastAlert[symbol] || { type: null }\<close>. The
  \<open>Record\<close> objects are maps from symbols to values; a symbol is taken to be an
  ordinary key, as the stream names of the subscription are (not a property name that
  every object inherits, such as \<open>constructor\<close>).
\<close>

definition window :: "rsi_bot \<Rightarrow> string \<Rightarrow> jsnum list" where
  "window st symbol = (case closePrices st symbol of None \<Rightarrow> [] | Some arr \<Rightarrow> arr)"

definition alertState :: "rsi_bot \<Rightarrow> string \<Rightarrow> alert_type" where
  "alertState st symbol = (case lastAlert st symbol of None \<Rightarrow> Null | Some t \<Rightarrow> t)"

text \<open>The decision on a defined metric value (the body of \<open>if (latest !== undefined)\<close>).\<close>

definition decide :: "string \<Rightarrow> jsnum \<Rightarrow> jsnum \<Rightarrow> rsi_bot \<Rightarrow> rsi_bot" where
  "decide symbol latest close st =
     (let alert = alertState st symbol in
      if jgt latest rsiUpper \<and> alert \<noteq> High then
        (sendRsiAlert symbol latest close st)\<lparr>lastAlert := (lastAlert st)(symbol \<mapsto> High)\<rparr>
      else if jlt latest rsiLower \<and> alert \<noteq> Low then
        (sendRsiAlert symbol latest close st)\<lparr>lastAlert := (lastAlert st)(symbol \<mapsto> Low)\<rparr>
      else if jge latest rsiLower \<and> jle latest rsiUpper then
        st\<lparr>lastAlert := (lastAlert st)(symbol \<mapsto> Null)\<rparr>
      else st)"

text \<open>
  The metric value a tick produces from the window \<open>arr\<close> (after the push):
  \<open>if (arr.length >= rsiPeriod) { rsi = RSI.calculate(...); latest = rsi.at(-1) }\<close>.
  \<open>calc\<close> stands for \<open>RSI.calculate\<close> of the library at period \<open>rsiPeriod\<close>.
\<close>

definition latestRsi :: "(jsnum list \<Rightarrow> jsnum list) \<Rightarrow> jsnum list \<Rightarrow> jsnum option" where
  "latestRsi calc arr = (if rsiPeriod \<le> length arr then at_last (calc arr) else None)"

text \<open>The body of the \<open>try\<close> block of the message handler; \<open>Inl\<close> is a thrown exception.\<close>

definition rsiBody :: "(jsnum list \<Rightarrow> jsnum list) \<Rightarrow> ws_msg \<Rightarrow> rsi_bot \<Rightarrow> js_error + rsi_bot" where
  "rsiBody calc msg st =
     (case msg of
        BadJson \<Rightarrow> Inl SyntaxError
      | NoSymbol \<Rightarrow> Inl TypeError
      | NoKline symbol \<Rightarrow> Inl TypeError
      | Kline symbol x close v \<Rightarrow>
          if \<not> x then Inr st
          else
            let arr = pushShift 100 (window st symbol) close;
                st1 = st\<lparr>closePrices := (closePrices st)(symbol \<mapsto> arr)\<rparr>
            in (case latestRsi calc arr of
                  None \<Rightarrow> Inr st1
                | Some latest \<Rightarrow> Inr (decide symbol latest close st1)))"

text \<open>The handler: \<open>catch\<close> logs the exception and leaves the state as it is.\<close>

definition rsiOnMessage :: "(jsnum list \<Rightarrow> jsnum list) \<Rightarrow> ws_msg \<Rightarrow> rsi_bot \<Rightarrow> rsi_bot" where
  "rsiOnMessage calc msg st = (case rsiBody calc msg st of Inl err \<Rightarrow> st | Inr st1 \<Rightarrow> st1)"

section \<open>The volume program\<close>

definition volumeMultiplier :: jsnum where "volumeMultiplier = Fin 2"
definition candleLimit :: nat where "candleLimit = 30"

definition sendVolumeAlert :: "string \<Rightarrow> jsnum \<Rightarrow> jsnum \<Rightarrow> volume_bot \<Rightarrow> volume_bot" where
  "sendVolumeAlert symbol volumeUSD avgUSD st =
     st\<lparr>alertQueue := alertQueue st @ [VolumeAlert symbol volumeUSD]\<rparr>"

definition history :: "volume_bot \<Rightarrow> string \<Rightarrow> jsnum list" where
  "history st symbol = (case volumeHistory st symbol of None \<Rightarrow> [] | Some h \<Rightarrow> h)"

text \<open>\<open>history.reduce((a, b) => a + b, 0) / history.length\<close>\<close>

definition average :: "jsnum list \<Rightarrow> jsnum" where
  "average h = jdiv (foldl jadd (Fin 0) h) (Fin (real (length h)))"

text \<open>The condition of the \<open>if\<close> that guards \<open>sendVolumeAlert\<close>.\<close>

definition spike :: "jsnum list \<Rightarrow> jsnum \<Rightarrow> bool" where
  "spike h volumeUSD \<longleftrightarrow>
     candleLimit \<le> length h \<and>
     jge volumeUSD (jmul volumeMultiplier (average h)) \<and>
     jge volumeUSD (Fin 50000)"

definition volBody :: "ws_msg \<Rightarrow> volume_bot \<Rightarrow> js_error + volume_bot" where
  "volBody msg st =
     (case msg of
        BadJson \<Rightarrow> Inl SyntaxError
      | NoSymbol \<Rightarrow> Inl TypeError
      | NoKline symbol \<Rightarrow> Inl TypeError
      | Kline symbol x close volume \<Rightarrow>
          if \<not> x then Inr st
          else
            let volumeUSD = jmul volume close;
                h = history st symbol;
                avg = average h;
                st1 = (if spike h volumeUSD then sendVolumeAlert symbol volumeUSD avg st else st)
            in Inr (st1\<lparr>volumeHistory :=
                      (volumeHistory st1)(symbol \<mapsto> pushShift candleLimit h volumeUSD)\<rparr>))"

definition volOnMessage :: "ws_msg \<Rightarrow> volume_bot \<Rightarrow> volume_bot" where
  "volOnMessage msg st = (case volBody msg st of Inl err \<Rightarrow> st | Inr st1 \<Rightarrow> st1)"

section \<open>Initial states and runs\<close>

text \<open>The module-level \<open>const\<close> declarations: empty maps and an empty queue.\<close>

definition initRsi :: rsi_bot where
  "initRsi = \<lparr>alertQueue = [], closePrices = Map.empty, lastAlert = Map.empty\<rparr>"

definition initVol :: volume_bot where
  "initVol = \<lparr>alertQueue = [], volumeHistory = Map.empty\<rparr>"

text \<open>The handler applied to the frames of the stream, in arrival order.\<close>

fun rsiRun :: "(jsnum list \<Rightarrow> jsnum list) \<Rightarrow> ws_msg list \<Rightarrow> rsi_bot \<Rightarrow> rsi_bot" where
  "rsiRun calc [] st = st"
| "rsiRun calc (msg # msgs) st = rsiRun calc msgs (rsiOnMessage calc msg st)"

fun volRun :: "ws_msg list \<Rightarrow> volume_bot \<Rightarrow> volume_bot" where
  "volRun [] st = st"
| "volRun (msg # msgs) st = volRun msgs (volOnMessage msg st)"

text \<open>
  The state machine of \<open>decide\<close> fed a sequence of metric values for one symbol, each
  with the close price of its tick.
\<close>

fun feed :: "string \<Rightarrow> (jsnum \<times> jsnum) list \<Rightarrow> rsi_bot \<Rightarrow> rsi_bot" where
  "feed symbol [] st = st"
| "feed symbol ((latest, close) # ticks) st = feed symbol ticks (decide symbol latest close st)"

text \<open>The alert handed to \<open>bot.sendMessage\<close> on a timer firing, if any.\<close>

fun sent :: "delivery \<Rightarrow> pending_alert option" where
  "sent Idle = None"
| "sent (Delivered msg) = Some msg"
| "sent (Failed msg) = Some msg"

text \<open>The most recent \<open>n\<close> elements of a sequence, in order.\<close>

definition lastN :: "nat \<Rightarrow> 'a list \<Rightarrow> 'a list" where
  "lastN n xs = drop (length xs - n) xs"

text \<open>
  The sample a frame contributes to the window of \<open>symbol\<close>: the close price (RSI
  program) or the notional volume \<open>volume * close\<close> (volume program) of a closed kline
  of that symbol, nothing otherwise.
\<close>

fun closeOf :: "string \<Rightarrow> ws_msg \<Rightarrow> jsnum list" where
  "closeOf symbol (Kline s x c v) = (if x \<and> s = symbol then [c] else [])"
| "closeOf symbol _ = []"

fun volumeOf :: "string \<Rightarrow> ws_msg \<Rightarrow> jsnum list" where
  "volumeOf symbol (Kline s x c v) = (if x \<and> s = symbol then [jmul v c] else [])"
| "volumeOf symbol _ = []"

text \<open>The symbol a frame belongs to, when the handler gets as far as reading it.\<close>

fun msgSymbol :: "ws_msg \<Rightarrow> string option" where
  "msgSymbol BadJson = None"
| "msgSymbol NoSymbol = None"
| "msgSymbol (NoKline s) = Some s"
| "msgSymbol (Kline s x c v) = Some s"

definition notFor :: "string \<Rightarrow> ws_msg \<Rightarrow> bool" where
  "notFor A msg \<longleftrightarrow> msgSymbol msg \<noteq> Some A"

fun alertSymbol :: "pending_alert \<Rightarrow> string" where
  "alertSymbol (RsiAlert s t r p) = s"
| "alertSymbol (VolumeAlert s u) = s"

text \<open>
  Everything the programs hold for one symbol \<open>B\<close>: its window, its alert state and the
  alerts it has contributed to the shared queue, in queue order.
\<close>

definition rsiView :: "string \<Rightarrow> rsi_bot \<Rightarrow> jsnum list option \<times> alert_type option \<times> pending_alert list" where
  "rsiView B st =
     (closePrices st B, lastAlert st B, filter (\<lambda>a. alertSymbol a = B) (alertQueue st))"

definition volView :: "string \<Rightarrow> volume_bot \<Rightarrow> jsnum list option \<times> pending_alert list" where
  "volView B st = (volumeHistory st B, filter (\<lambda>a. alertSymbol a = B) (alertQueue st))"

section \<open>The momentum metric of the library\<close>

text \<open>
  Modelled from the spec: \<open>RSI.calculate\<close> belongs to the package
  \<open>technicalindicators\<close>, which the sources import and do not contain. The definitions
  of this section follow the description of the momentum variant of the metric: gains
  and losses of the price deltas, averages seeded by the simple average over the first
  \<open>P\<close> deltas and then smoothed with factor \<open>1/P\<close>, \<open>RSI = 100 - 100 / (1 + RS)\<close> with
  \<open>RS = avgGain / avgLoss\<close>, \<open>RSI = 100\<close> when \<open>avgLoss\<close> is zero, and no result on
  fewer than \<open>P + 1\<close> prices.
\<close>

text \<open>Modelled from the spec: the gain of a price delta (the library is missing).\<close>

definition gain :: "jsnum \<Rightarrow> jsnum" where
  "gain d = (if jgt d (Fin 0) then d else Fin 0)"

text \<open>Modelled from the spec: the loss of a price delta (the library is missing).\<close>

definition loss :: "jsnum \<Rightarrow> jsnum" where
  "loss d = (if jlt d (Fin 0) then jneg d else Fin 0)"

text \<open>Modelled from the spec: the deltas of consecutive prices (the library is missing).\<close>

definition deltas :: "jsnum list \<Rightarrow> jsnum list" where
  "deltas prices = map (\<lambda>(a, b). jsub b a) (zip prices (tl prices))"

text \<open>Modelled from the spec: the simple average that seeds the smoothing (the library is missing).\<close>

definition simpleAverage :: "jsnum list \<Rightarrow> jsnum" where
  "simpleAverage xs = jdiv (foldl jadd (Fin 0) xs) (Fin (real (length xs)))"

text \<open>Modelled from the spec: one step of smoothing with factor \<open>1/P\<close> (the library is missing).\<close>

definition smooth :: "nat \<Rightarrow> jsnum \<Rightarrow> jsnum \<Rightarrow> jsnum" where
  "smooth P avg x = jdiv (jadd (jmul avg (Fin (real P - 1))) x) (Fin (real P))"

text \<open>
  Modelled from the spec: the momentum metric of a price sequence at period \<open>P\<close>,
  \<open>None\<close> for "undefined" (the library is missing).
\<close>

definition momentum :: "nat \<Rightarrow> jsnum list \<Rightarrow> jsnum option" where
  "momentum P prices =
     (if length prices < P + 1 then None
      else
        let ds = deltas prices;
            avgGain = foldl (smooth P) (simpleAverage (map gain (take P ds))) (map gain (drop P ds));
            avgLoss = foldl (smooth P) (simpleAverage (map loss (take P ds))) (map loss (drop P ds))
        in Some (if avgLoss = Fin 0 then Fin 100
                 else jsub (Fin 100) (jdiv (Fin 100) (jadd (Fin 1) (jdiv avgGain avgLoss)))))"

text \<open>
  Modelled from the spec: \<open>RSI.calculate({ values, period })\<close>, missing with the library,
  as the series of the metric over the prefixes of \<open>values\<close> on which it is defined, so
  that its last element is the metric of the whole window.
\<close>

definition RSI_calculate :: "nat \<Rightarrow> jsnum list \<Rightarrow> jsnum list" where
  "RSI_calculate P vals =
     List.map_filter (\<lambda>n. momentum P (take n vals)) [1..<Suc (length vals)]"

section \<open>Auxiliary facts\<close>

lemma drainTicks_eq:
  "drainTicks oks st =
     (map2 (\<lambda>ok msg. if ok then Delivered msg else Failed msg) oks (alertQueue st)
        @ replicate (length oks - length (alertQueue st)) Idle,
      st\<lparr>alertQueue := drop (length oks) (alertQueue st)\<rparr>)"
proof (induction oks arbitrary: st)
  case Nil
  show ?case by simp
next
  case (Cons ok oks)
  show ?case
  proof (cases "alertQueue st")
    case Nil
    then show ?thesis using Cons.IH [of st] by (simp add: drainTick_def)
  next
    case (Cons msg rest)
    then show ?thesis using Cons.IH [of "st\<lparr>alertQueue := rest\<rparr>"] by (simp add: drainTick_def)
  qed
qed

lemma pushShift_lastN: "length arr \<le> cap \<Longrightarrow> pushShift cap arr x = lastN cap (arr @ [x])"
  by (cases arr) (auto simp: pushShift_def lastN_def Let_def Suc_diff_le)

lemma lastN_length: "length (lastN n xs) \<le> n"
  by (simp add: lastN_def)

lemma lastN_append: "lastN n (lastN n xs @ ys) = lastN n (xs @ ys)"
  by (cases "length xs \<le> n") (simp_all add: lastN_def add.commute)

lemma lastN_id: "length xs \<le> n \<Longrightarrow> lastN n xs = xs"
  by (simp add: lastN_def)

lemma decide_closePrices: "closePrices (decide symbol latest close st) = closePrices st"
  by (simp add: decide_def sendRsiAlert_def Let_def)

lemma window_step:
  "length (window st symbol) \<le> 100 \<Longrightarrow>
   window (rsiOnMessage calc msg st) symbol = lastN 100 (window st symbol @ closeOf symbol msg)"
  by (cases msg)
     (auto simp: rsiOnMessage_def rsiBody_def Let_def window_def decide_closePrices lastN_id
        pushShift_lastN [unfolded window_def] split: option.splits)

lemma window_run:
  "length (window st symbol) \<le> 100 \<Longrightarrow>
   window (rsiRun calc msgs st) symbol
     = lastN 100 (window st symbol @ concat (map (closeOf symbol) msgs))"
proof (induction msgs arbitrary: st)
  case Nil
  then show ?case by (simp add: lastN_id)
next
  case (Cons msg msgs)
  have "length (window (rsiOnMessage calc msg st) symbol) \<le> 100"
    using Cons.prems by (simp add: window_step lastN_length)
  then show ?case
    using Cons.IH [of "rsiOnMessage calc msg st"] Cons.prems
    by (simp add: window_step lastN_append)
qed

lemma history_step:
  "length (history st symbol) \<le> candleLimit \<Longrightarrow>
   history (volOnMessage msg st) symbol = lastN candleLimit (history st symbol @ volumeOf symbol msg)"
  by (cases msg)
     (auto simp: volOnMessage_def volBody_def Let_def history_def sendVolumeAlert_def lastN_id
        pushShift_lastN [unfolded history_def] split: option.splits)

lemma history_run:
  "length (history st symbol) \<le> candleLimit \<Longrightarrow>
   history (volRun msgs st) symbol
     = lastN candleLimit (history st symbol @ concat (map (volumeOf symbol) msgs))"
proof (induction msgs arbitrary: st)
  case Nil
  then show ?case by (simp add: lastN_id)
next
  case (Cons msg msgs)
  have "length (history (volOnMessage msg st) symbol) \<le> candleLimit"
    using Cons.prems by (simp add: history_step lastN_length)
  then show ?case
    using Cons.IH [of "volOnMessage msg st"] Cons.prems
    by (simp add: history_step lastN_append)
qed

lemma momentum_None: "momentum P prices = None \<longleftrightarrow> length prices < P + 1"
  by (simp add: momentum_def Let_def)

lemma RSI_calculate_short: "length vals < P + 1 \<Longrightarrow> RSI_calculate P vals = []"
  by (auto simp: RSI_calculate_def map_filter_def filter_empty_conv momentum_None)

lemma RSI_calculate_last:
  assumes "P + 1 \<le> length vals"
  shows "at_last (RSI_calculate P vals) = momentum P vals"
proof -
  obtain n where n: "length vals = Suc n" using assms by (cases "length vals") auto
  obtain r where r: "momentum P vals = Some r"
    using assms momentum_None [of P vals] by (cases "momentum P vals") auto
  have "[1..<Suc (length vals)] = [1..<length vals] @ [length vals]"
    using n by simp
  then have "RSI_calculate P vals =
      List.map_filter (\<lambda>n. momentum P (take n vals)) [1..<length vals] @ [r]"
    by (simp add: RSI_calculate_def map_filter_def r)
  then show ?thesis by (simp add: at_last_def r)
qed

lemma decide_other:
  "s \<noteq> B \<Longrightarrow> rsiView B (decide s latest close st) = rsiView B st"
  by (simp add: decide_def sendRsiAlert_def rsiView_def Let_def)

lemma rsi_step_other:
  "msgSymbol msg \<noteq> Some B \<Longrightarrow> rsiView B (rsiOnMessage calc msg st) = rsiView B st"
  by (cases msg)
     (auto simp: rsiOnMessage_def rsiBody_def Let_def decide_other split: option.splits,
      auto simp: rsiView_def)

lemma vol_step_other:
  "msgSymbol msg \<noteq> Some B \<Longrightarrow> volView B (volOnMessage msg st) = volView B st"
  by (cases msg)
     (auto simp: volOnMessage_def volBody_def Let_def sendVolumeAlert_def volView_def)

lemma decide_same:
  assumes "rsiView B st1 = rsiView B st2"
  shows "rsiView B (decide B latest close st1) = rsiView B (decide B latest close st2)"
  using assms
  by (simp add: decide_def sendRsiAlert_def rsiView_def Let_def alertState_def)

lemma rsi_step_same:
  assumes "rsiView B st1 = rsiView B st2"
  shows "rsiView B (rsiOnMessage calc msg st1) = rsiView B (rsiOnMessage calc msg st2)"
proof (cases "msgSymbol msg = Some B")
  case False
  then show ?thesis using assms by (simp add: rsi_step_other)
next
  case True
  show ?thesis
  proof (cases msg)
    case (Kline s x c v)
    with True have s: "s = B" by simp
    have w: "window st1 B = window st2 B"
      using assms by (simp add: rsiView_def window_def)
    let ?arr = "pushShift 100 (window st2 B) c"
    let ?u1 = "st1\<lparr>closePrices := (closePrices st1)(B \<mapsto> ?arr)\<rparr>"
    let ?u2 = "st2\<lparr>closePrices := (closePrices st2)(B \<mapsto> ?arr)\<rparr>"
    have v: "rsiView B ?u1 = rsiView B ?u2"
      using assms by (simp add: rsiView_def)
    have r1: "rsiOnMessage calc msg st1 =
        (if \<not> x then st1 else case latestRsi calc ?arr of None \<Rightarrow> ?u1
           | Some latest \<Rightarrow> decide B latest c ?u1)"
      by (simp add: Kline s rsiOnMessage_def rsiBody_def Let_def w split: option.splits)
    have r2: "rsiOnMessage calc msg st2 =
        (if \<not> x then st2 else case latestRsi calc ?arr of None \<Rightarrow> ?u2
           | Some latest \<Rightarrow> decide B latest c ?u2)"
      by (simp add: Kline s rsiOnMessage_def rsiBody_def Let_def split: option.splits)
    show ?thesis
    proof (cases x)
      case False
      then show ?thesis unfolding r1 r2 using assms by simp
    next
      case True
      show ?thesis
      proof (cases "latestRsi calc ?arr")
        case None
        then show ?thesis unfolding r1 r2 using True v by simp
      next
        case (Some latest)
        then show ?thesis unfolding r1 r2 using True decide_same [OF v] by simp
      qed
    qed
  next
    case BadJson
    then show ?thesis using assms by (simp add: rsiOnMessage_def rsiBody_def)
  next
    case NoSymbol
    then show ?thesis using assms by (simp add: rsiOnMessage_def rsiBody_def)
  next
    case (NoKline s)
    then show ?thesis using assms by (simp add: rsiOnMessage_def rsiBody_def)
  qed
qed

lemma vol_step_same:
  assumes "volView B st1 = volView B st2"
  shows "volView B (volOnMessage msg st1) = volView B (volOnMessage msg st2)"
proof (cases "msgSymbol msg = Some B")
  case False
  then show ?thesis using assms by (simp add: vol_step_other)
next
  case True
  have h: "history st1 B = history st2 B"
    using assms by (simp add: volView_def history_def)
  have q: "filter (\<lambda>a. alertSymbol a = B) (alertQueue st1)
         = filter (\<lambda>a. alertSymbol a = B) (alertQueue st2)"
    using assms by (simp add: volView_def)
  show ?thesis
  proof (cases msg)
    case (Kline s x c v)
    with True have s: "s = B" by simp
    show ?thesis
    proof (cases x)
      case False
      then show ?thesis using assms by (simp add: Kline volOnMessage_def volBody_def)
    next
      case True
      have "volView B (volOnMessage msg st) =
          (Some (pushShift candleLimit (history st B) (jmul v c)),
           filter (\<lambda>a. alertSymbol a = B) (alertQueue st)
             @ (if spike (history st B) (jmul v c) then [VolumeAlert B (jmul v c)] else []))"
        for st
        by (simp add: Kline s True volOnMessage_def volBody_def Let_def sendVolumeAlert_def
              volView_def)
      then show ?thesis by (simp add: h q)
    qed
  next
    case BadJson
    then show ?thesis using assms by (simp add: volOnMessage_def volBody_def)
  next
    case NoSymbol
    then show ?thesis using assms by (simp add: volOnMessage_def volBody_def)
  next
    case (NoKline s)
    then show ?thesis using assms by (simp add: volOnMessage_def volBody_def)
  qed
qed

lemma rsi_run_same:
  "rsiView B st1 = rsiView B st2 \<Longrightarrow>
   rsiView B (rsiRun calc msgs st1) = rsiView B (rsiRun calc msgs st2)"
proof (induction msgs arbitrary: st1 st2)
  case Nil
  then show ?case by simp
next
  case (Cons msg msgs)
  from Cons.IH [OF rsi_step_same [OF Cons.prems]] show ?case by simp
qed

lemma vol_run_same:
  "volView B st1 = volView B st2 \<Longrightarrow>
   volView B (volRun msgs st1) = volView B (volRun msgs st2)"
proof (induction msgs arbitrary: st1 st2)
  case Nil
  then show ?case by simp
next
  case (Cons msg msgs)
  from Cons.IH [OF vol_step_same [OF Cons.prems]] show ?case by simp
qed

lemma rsi_run_filter:
  assumes "B \<noteq> A"
  shows "rsiView B (rsiRun calc msgs st) = rsiView B (rsiRun calc (filter (notFor A) msgs) st)"
proof (induction msgs arbitrary: st)
  case Nil
  show ?case by simp
next
  case (Cons msg msgs)
  show ?case
  proof (cases "notFor A msg")
    case True
    then show ?thesis using Cons.IH by simp
  next
    case False
    then have "msgSymbol msg \<noteq> Some B" using assms by (auto simp: notFor_def)
    then have "rsiView B (rsiOnMessage calc msg st) = rsiView B st"
      by (rule rsi_step_other)
    from rsi_run_same [OF this] show ?thesis using False Cons.IH by simp
  qed
qed

lemma vol_run_filter:
  assumes "B \<noteq> A"
  shows "volView B (volRun msgs st) = volView B (volRun (filter (notFor A) msgs) st)"
proof (induction msgs arbitrary: st)
  case Nil
  show ?case by simp
next
  case (Cons msg msgs)
  show ?case
  proof (cases "notFor A msg")
    case True
    then show ?thesis using Cons.IH by simp
  next
    case False
    then have "msgSymbol msg \<noteq> Some B" using assms by (auto simp: notFor_def)
    then have "volView B (volOnMessage msg st) = volView B st"
      by (rule vol_step_other)
    from vol_run_same [OF this] show ?thesis using False Cons.IH by simp
  qed
qed


section \<open>The claims\<close>

text \<open>
  C1. The transition rule of the momentum alert state machine. On a closed tick of any
  symbol whose metric value \<open>v\<close> is defined (the window after the push yields
  \<open>latestRsi = Some v\<close>): if \<open>v > 80\<close> and the symbol's state is not High, one alert is
  appended to the queue and the state becomes High; if \<open>v < 20\<close> and the state is not Low,
  one alert is appended and the state becomes Low; if \<open>20 \<le> v \<le> 80\<close> the state becomes
  Null (neutral) and nothing is queued; in every other case nothing is queued and
  \<open>lastAlert\<close> is unchanged.
\<close>

theorem rsi_transition_rule:
  assumes "latestRsi calc (pushShift 100 (window st symbol) close) = Some v"
  shows "let st' = rsiOnMessage calc (Kline symbol True close vol) st in
     (jgt v rsiUpper \<and> alertState st symbol \<noteq> High \<longrightarrow>
        alertQueue st' = alertQueue st @ [RsiAlert symbol High v close]
        \<and> alertState st' symbol = High)
   \<and> (jlt v rsiLower \<and> alertState st symbol \<noteq> Low \<longrightarrow>
        alertQueue st' = alertQueue st @ [RsiAlert symbol Low v close]
        \<and> alertState st' symbol = Low)
   \<and> (jge v rsiLower \<and> jle v rsiUpper \<longrightarrow>
        alertQueue st' = alertQueue st \<and> alertState st' symbol = Null)
   \<and> (\<not> (jgt v rsiUpper \<and> alertState st symbol \<noteq> High)
        \<and> \<not> (jlt v rsiLower \<and> alertState st symbol \<noteq> Low)
        \<and> \<not> (jge v rsiLower \<and> jle v rsiUpper) \<longrightarrow>
        alertQueue st' = alertQueue st \<and> lastAlert st' = lastAlert st)"
proof -
  have zones: "\<not> (jgt v rsiUpper \<and> jlt v rsiLower)" "\<not> (jgt v rsiUpper \<and> jle v rsiUpper)"
    "\<not> (jlt v rsiLower \<and> jge v rsiLower)"
    by (cases v; simp add: jgt_def jge_def rsiUpper_def rsiLower_def)+
  have step: "rsiOnMessage calc (Kline symbol True close vol) st =
      decide symbol v close (st\<lparr>closePrices := (closePrices st)(symbol \<mapsto> pushShift 100 (window st symbol) close)\<rparr>)"
    using assms by (simp add: rsiOnMessage_def rsiBody_def Let_def)
  show ?thesis
    unfolding step Let_def using zones
    by (auto simp: decide_def sendRsiAlert_def alertState_def Let_def)
qed

theorem rsi_transition_rule_witness:
  "latestRsi (\<lambda>arr. [Fin 90])
      (pushShift 100 (window (initRsi\<lparr>closePrices := [''btcusdt'' \<mapsto> replicate 14 (Fin 1)]\<rparr>) ''btcusdt'') (Fin 2))
     = Some (Fin 90)
   \<and> alertQueue (rsiOnMessage (\<lambda>arr. [Fin 90]) (Kline ''btcusdt'' True (Fin 2) (Fin 5))
        (initRsi\<lparr>closePrices := [''btcusdt'' \<mapsto> replicate 14 (Fin 1)]\<rparr>))
     = [RsiAlert ''btcusdt'' High (Fin 90) (Fin 2)]
   \<and> alertState (rsiOnMessage (\<lambda>arr. [Fin 90]) (Kline ''btcusdt'' True (Fin 2) (Fin 5))
        (initRsi\<lparr>closePrices := [''btcusdt'' \<mapsto> replicate 14 (Fin 1)]\<rparr>)) ''btcusdt''
     = High
   \<and> alertQueue (rsiOnMessage (\<lambda>arr. [Fin 10]) (Kline ''btcusdt'' True (Fin 2) (Fin 5))
        (initRsi\<lparr>closePrices := [''btcusdt'' \<mapsto> replicate 14 (Fin 1)]\<rparr>))
     = [RsiAlert ''btcusdt'' Low (Fin 10) (Fin 2)]
   \<and> alertState (rsiOnMessage (\<lambda>arr. [Fin 50]) (Kline ''btcusdt'' True (Fin 2) (Fin 5))
        (initRsi\<lparr>closePrices := [''btcusdt'' \<mapsto> replicate 14 (Fin 1)],
                  lastAlert := [''btcusdt'' \<mapsto> High]\<rparr>)) ''btcusdt''
     = Null
   \<and> alertQueue (rsiOnMessage (\<lambda>arr. [Fin 90]) (Kline ''btcusdt'' True (Fin 2) (Fin 5))
        (initRsi\<lparr>closePrices := [''btcusdt'' \<mapsto> replicate 14 (Fin 1)],
                  lastAlert := [''btcusdt'' \<mapsto> High]\<rparr>))
     = []"
proof -
  let ?st = "initRsi\<lparr>closePrices := [''btcusdt'' \<mapsto> replicate 14 (Fin 1)]\<rparr>"
  let ?sh = "initRsi\<lparr>closePrices := [''btcusdt'' \<mapsto> replicate 14 (Fin 1)],
                  lastAlert := [''btcusdt'' \<mapsto> High]\<rparr>"
  have h: "latestRsi (\<lambda>arr. [x]) (pushShift 100 (window ?st ''btcusdt'') (Fin 2)) = Some x"
    "latestRsi (\<lambda>arr. [x]) (pushShift 100 (window ?sh ''btcusdt'') (Fin 2)) = Some x" for x
    by (simp_all add: latestRsi_def pushShift_def window_def initRsi_def rsiPeriod_def at_last_def)
  have a: "alertState ?st ''btcusdt'' = Null" "alertQueue ?st = []"
    "alertState ?sh ''btcusdt'' = High" "alertQueue ?sh = []"
    by (simp_all add: alertState_def initRsi_def)
  have z: "jgt (Fin 90) rsiUpper" "jlt (Fin 10) rsiLower" "\<not> jgt (Fin 10) rsiUpper"
    "jge (Fin 50) rsiLower" "jle (Fin 50) rsiUpper" "\<not> jgt (Fin 50) rsiUpper"
    "\<not> jlt (Fin 50) rsiLower" "\<not> jlt (Fin 90) rsiLower" "\<not> jle (Fin 90) rsiUpper"
    by (simp_all add: jgt_def jge_def rsiUpper_def rsiLower_def)
  from rsi_transition_rule [OF h(1), of "Fin 90" "Fin 5"]
    rsi_transition_rule [OF h(1), of "Fin 10" "Fin 5"]
    rsi_transition_rule [OF h(2), of "Fin 50" "Fin 5"]
    rsi_transition_rule [OF h(2), of "Fin 90" "Fin 5"]
  show ?thesis
    using h(1) [of "Fin 90"] a z by (simp add: Let_def)
qed

text \<open>
  C2. Window bound and FIFO eviction. From a state in which the symbol's window is within
  its capacity (the lazily created empty window, or a preload of at most \<open>limit\<close> klines),
  after any sequence of frames the close-price window is exactly the last 100 elements
  of the old window followed by the closes pushed for that symbol, in arrival order, and
  the volume window the last 30 of the old window followed by the pushed notional
  volumes; so both lengths stay within capacity. One push onto a full window drops
  exactly the oldest element; one push onto a window below capacity drops nothing.
\<close>

theorem window_bound_fifo:
  assumes "length (window st symbol) \<le> 100" and "length (history vst symbol) \<le> candleLimit"
  shows "window (rsiRun calc msgs st) symbol
           = lastN 100 (window st symbol @ concat (map (closeOf symbol) msgs))
   \<and> length (window (rsiRun calc msgs st) symbol) \<le> 100
   \<and> history (volRun msgs vst) symbol
           = lastN candleLimit (history vst symbol @ concat (map (volumeOf symbol) msgs))
   \<and> length (history (volRun msgs vst) symbol) \<le> 30
   \<and> (length arr = cap \<and> 0 < cap \<longrightarrow> pushShift cap arr x = tl arr @ [x])
   \<and> (length arr < cap \<longrightarrow> pushShift cap arr x = arr @ [x])"
proof -
  have "length arr = cap \<Longrightarrow> 0 < cap \<Longrightarrow> pushShift cap arr x = tl arr @ [x]"
    by (cases arr) (auto simp: pushShift_def Let_def)
  moreover have "length arr < cap \<Longrightarrow> pushShift cap arr x = arr @ [x]"
    by (simp add: pushShift_def Let_def)
  moreover have "length (lastN candleLimit ys) \<le> 30" for ys :: "jsnum list"
    using lastN_length [of candleLimit ys] by (simp add: candleLimit_def)
  ultimately show ?thesis
    using assms by (simp add: window_run history_run lastN_length)
qed

theorem window_bound_fifo_witness:
  "length (window initRsi ''btcusdt'') \<le> 100
   \<and> length (history initVol ''btcusdt'') \<le> candleLimit
   \<and> window (rsiRun (\<lambda>arr. []) [Kline ''btcusdt'' True (Fin 1) (Fin 3), Kline ''ethusdt'' True (Fin 7) (Fin 3),
         Kline ''btcusdt'' False (Fin 8) (Fin 3), Kline ''btcusdt'' True (Fin 2) (Fin 3)] initRsi) ''btcusdt''
       = [Fin 1, Fin 2]
   \<and> history (volRun [Kline ''btcusdt'' True (Fin 1) (Fin 3), Kline ''ethusdt'' True (Fin 7) (Fin 3),
         Kline ''btcusdt'' False (Fin 8) (Fin 3), Kline ''btcusdt'' True (Fin 2) (Fin 3)] initVol) ''btcusdt''
       = [Fin 3, Fin 6]
   \<and> pushShift 3 [Fin 1, Fin 2, Fin 3] (Fin 4) = [Fin 2, Fin 3, Fin 4]
   \<and> pushShift 3 [Fin 1, Fin 2] (Fin 4) = [Fin 1, Fin 2, Fin 4]"
proof -
  have h1: "length (window initRsi ''btcusdt'') \<le> 100"
    by (simp add: window_def initRsi_def)
  have h2: "length (history initVol ''btcusdt'') \<le> candleLimit"
    by (simp add: history_def initVol_def)
  have w: "window initRsi ''btcusdt'' = []" "history initVol ''btcusdt'' = []"
    by (simp_all add: window_def initRsi_def history_def initVol_def)
  from window_bound_fifo [OF h1 h2, of "\<lambda>arr. []"
      "[Kline ''btcusdt'' True (Fin 1) (Fin 3), Kline ''ethusdt'' True (Fin 7) (Fin 3),
         Kline ''btcusdt'' False (Fin 8) (Fin 3), Kline ''btcusdt'' True (Fin 2) (Fin 3)]"
      "[Fin 1, Fin 2, Fin 3]" 3 "Fin 4"]
    window_bound_fifo [OF h1 h2, of "\<lambda>arr. []" "[]" "[Fin 1, Fin 2]" 3 "Fin 4"]
  show ?thesis
    using h1 h2 by (simp add: w lastN_def candleLimit_def)
qed



text \<open>
  C4. Definedness of the momentum metric. Whatever the library computes, the handler
  produces no metric value on a window of fewer than \<open>rsiPeriod\<close> prices. With the library
  as described, the value fed to the decision is defined iff the window (after the push)
  holds at least \<open>rsiPeriod + 1 = 16\<close> prices, and it is then the metric of the whole
  window: on a shorter window the handler only stores the window, on a longer one it
  runs \<open>decide\<close> on that value.
\<close>

theorem rsi_defined_iff:
  "(length arr < rsiPeriod \<longrightarrow> latestRsi calc arr = None)
   \<and> (latestRsi (RSI_calculate rsiPeriod) arr \<noteq> None) = (16 \<le> length arr)
   \<and> latestRsi (RSI_calculate rsiPeriod) arr = momentum rsiPeriod arr
   \<and> (let arr1 = pushShift 100 (window st symbol) close;
           st1 = st\<lparr>closePrices := (closePrices st)(symbol \<mapsto> arr1)\<rparr>;
           st' = rsiOnMessage (RSI_calculate rsiPeriod) (Kline symbol True close vol) st
       in (length arr1 < 16 \<longrightarrow> st' = st1)
          \<and> (16 \<le> length arr1 \<longrightarrow>
               (\<exists>v. momentum rsiPeriod arr1 = Some v \<and> st' = decide symbol v close st1)))"
proof -
  have short: "latestRsi calc arr = None" if "length arr < rsiPeriod"
    using that by (simp add: latestRsi_def)
  have eq: "latestRsi (RSI_calculate rsiPeriod) xs = momentum rsiPeriod xs" for xs
  proof (cases "16 \<le> length xs")
    case True
    then have "rsiPeriod + 1 \<le> length xs" by (simp add: rsiPeriod_def)
    from RSI_calculate_last [OF this] True show ?thesis
      by (simp add: latestRsi_def rsiPeriod_def)
  next
    case False
    then have "length xs < rsiPeriod + 1" by (simp add: rsiPeriod_def)
    from RSI_calculate_short [OF this] show ?thesis
      using momentum_None [of rsiPeriod xs] False
      by (simp add: latestRsi_def rsiPeriod_def at_last_def)
  qed
  have iff: "(momentum rsiPeriod xs \<noteq> None) = (16 \<le> length xs)" for xs
    using momentum_None [of rsiPeriod xs] by (auto simp: rsiPeriod_def)
  have step: "rsiOnMessage (RSI_calculate rsiPeriod) (Kline symbol True close vol) st =
      (case momentum rsiPeriod (pushShift 100 (window st symbol) close) of
         None \<Rightarrow> st\<lparr>closePrices := (closePrices st)(symbol \<mapsto> pushShift 100 (window st symbol) close)\<rparr>
       | Some v \<Rightarrow> decide symbol v close
           (st\<lparr>closePrices := (closePrices st)(symbol \<mapsto> pushShift 100 (window st symbol) close)\<rparr>))"
    by (simp add: rsiOnMessage_def rsiBody_def Let_def eq split: option.splits)
  have "length xs < 16 \<Longrightarrow> momentum rsiPeriod xs = None" for xs
    using iff [of xs] by simp
  moreover have "16 \<le> length xs \<Longrightarrow> \<exists>v. momentum rsiPeriod xs = Some v" for xs
    using iff [of xs] by auto
  ultimately have handler: "let arr1 = pushShift 100 (window st symbol) close;
           st1 = st\<lparr>closePrices := (closePrices st)(symbol \<mapsto> arr1)\<rparr>;
           st' = rsiOnMessage (RSI_calculate rsiPeriod) (Kline symbol True close vol) st
       in (length arr1 < 16 \<longrightarrow> st' = st1)
          \<and> (16 \<le> length arr1 \<longrightarrow>
               (\<exists>v. momentum rsiPeriod arr1 = Some v \<and> st' = decide symbol v close st1))"
    unfolding Let_def step by fastforce
  show ?thesis
    using short handler by (simp only: eq iff) simp
qed

theorem rsi_defined_iff_witness:
  "length (replicate 14 (Fin 1)) < rsiPeriod
   \<and> latestRsi (\<lambda>arr. [Fin 90]) (replicate 14 (Fin 1)) = None
   \<and> latestRsi (RSI_calculate rsiPeriod) (replicate 15 (Fin 1)) = None
   \<and> latestRsi (RSI_calculate rsiPeriod) (replicate 16 (Fin 1)) \<noteq> None"
proof -
  have a: "length (replicate 14 (Fin 1)) < rsiPeriod"
    by (simp add: rsiPeriod_def)
  have b: "latestRsi (\<lambda>arr. [Fin 90]) (replicate 14 (Fin 1)) = None"
    using a rsi_defined_iff [of "replicate 14 (Fin 1)" "\<lambda>arr. [Fin 90]" initRsi "''btcusdt''" "Fin 1" "Fin 1"]
    by blast
  have "(latestRsi (RSI_calculate rsiPeriod) (replicate 15 (Fin 1)) \<noteq> None)
      = (16 \<le> length (replicate 15 (Fin 1)))"
    using rsi_defined_iff [of "replicate 15 (Fin 1)" "\<lambda>arr. [Fin 90]" initRsi "''btcusdt''" "Fin 1" "Fin 1"]
    by blast
  then have c: "latestRsi (RSI_calculate rsiPeriod) (replicate 15 (Fin 1)) = None"
    by simp
  have "(latestRsi (RSI_calculate rsiPeriod) (replicate 16 (Fin 1)) \<noteq> None)
      = (16 \<le> length (replicate 16 (Fin 1)))"
    using rsi_defined_iff [of "replicate 16 (Fin 1)" "\<lambda>arr. [Fin 90]" initRsi "''btcusdt''" "Fin 1" "Fin 1"]
    by blast
  then have d: "latestRsi (RSI_calculate rsiPeriod) (replicate 16 (Fin 1)) \<noteq> None"
    by simp
  from a b c d show ?thesis by blast
qed

text \<open>
  C5. Rate, order and loss policy of the dispatcher. One timer firing on a non-empty
  queue hands exactly the head of the queue to the sink and leaves the tail, whether the
  sink accepts or rejects the message. Any number of firings hand over the alerts of the
  queue in queue order, one per firing, then idle; the queue afterwards is the old queue
  without the alerts handed over, so a rejected alert is never queued again. In
  particular \<open>K\<close> firings on a queue of \<open>K\<close> alerts hand over exactly those alerts in
  enqueue order and empty the queue.
\<close>

theorem dispatcher_fifo:
  "(alertQueue st = msg # rest \<longrightarrow>
      drainTick ok st = ((if ok then Delivered msg else Failed msg), st\<lparr>alertQueue := rest\<rparr>))
   \<and> fst (drainTicks oks st) =
       map2 (\<lambda>ok msg. if ok then Delivered msg else Failed msg) oks (alertQueue st)
         @ replicate (length oks - length (alertQueue st)) Idle
   \<and> snd (drainTicks oks st) = st\<lparr>alertQueue := drop (length oks) (alertQueue st)\<rparr>
   \<and> (length oks = length (alertQueue st) \<longrightarrow>
        map sent (fst (drainTicks oks st)) = map Some (alertQueue st)
        \<and> alertQueue (snd (drainTicks oks st)) = [])"
proof -
  have "length oks = length q \<Longrightarrow>
      map sent (map2 (\<lambda>ok msg. if ok then Delivered msg else Failed msg) oks q) = map Some q"
    for q :: "pending_alert list"
    by (induction oks q rule: list_induct2) auto
  then show ?thesis
    by (auto simp: drainTicks_eq drainTick_def)
qed

theorem dispatcher_fifo_witness:
  "length [True, False, True] = length (alertQueue (initVol\<lparr>alertQueue :=
       [VolumeAlert ''a'' (Fin 1), VolumeAlert ''b'' (Fin 2), VolumeAlert ''c'' (Fin 3)]\<rparr>))
   \<and> fst (drainTicks [True, False, True] (initVol\<lparr>alertQueue :=
       [VolumeAlert ''a'' (Fin 1), VolumeAlert ''b'' (Fin 2), VolumeAlert ''c'' (Fin 3)]\<rparr>))
      = [Delivered (VolumeAlert ''a'' (Fin 1)), Failed (VolumeAlert ''b'' (Fin 2)),
         Delivered (VolumeAlert ''c'' (Fin 3))]
   \<and> alertQueue (snd (drainTicks [True, False, True] (initVol\<lparr>alertQueue :=
       [VolumeAlert ''a'' (Fin 1), VolumeAlert ''b'' (Fin 2), VolumeAlert ''c'' (Fin 3)]\<rparr>))) = []"
  using dispatcher_fifo [of "initVol\<lparr>alertQueue :=
       [VolumeAlert ''a'' (Fin 1), VolumeAlert ''b'' (Fin 2), VolumeAlert ''c'' (Fin 3)]\<rparr>"
       "VolumeAlert ''a'' (Fin 1)" "[VolumeAlert ''b'' (Fin 2), VolumeAlert ''c'' (Fin 3)]" True
       "[True, False, True]"]
  by (simp add: drainTick_def)

text \<open>
  C6. Edge triggering and re-arming. From a neutral state of the symbol, the metric
  sequence 90, 95, 85, 92 queues exactly one alert, for the first value 90; the sequence
  90, 70, 92 queues exactly two alerts, for the 90 at index 0 and the 92 at index 2.
\<close>

theorem edge_trigger_traces:
  assumes "alertState st symbol = Null"
  shows "alertQueue (feed symbol [(Fin 90, c0), (Fin 95, c1), (Fin 85, c2), (Fin 92, c3)] st)
           = alertQueue st @ [RsiAlert symbol High (Fin 90) c0]
   \<and> alertQueue (feed symbol [(Fin 90, c0), (Fin 70, c1), (Fin 92, c2)] st)
           = alertQueue st @ [RsiAlert symbol High (Fin 90) c0, RsiAlert symbol High (Fin 92) c2]"
  using assms
  by (simp add: decide_def sendRsiAlert_def alertState_def Let_def jgt_def jge_def rsiUpper_def rsiLower_def)

theorem edge_trigger_traces_witness:
  "alertState initRsi ''btcusdt'' = Null
   \<and> alertQueue (feed ''btcusdt'' [(Fin 90, Fin 1), (Fin 95, Fin 2), (Fin 85, Fin 3), (Fin 92, Fin 4)] initRsi)
       = [RsiAlert ''btcusdt'' High (Fin 90) (Fin 1)]
   \<and> alertQueue (feed ''btcusdt'' [(Fin 90, Fin 1), (Fin 70, Fin 2), (Fin 92, Fin 3)] initRsi)
       = [RsiAlert ''btcusdt'' High (Fin 90) (Fin 1), RsiAlert ''btcusdt'' High (Fin 92) (Fin 3)]"
proof -
  have h: "alertState initRsi ''btcusdt'' = Null"
    by (simp add: alertState_def initRsi_def)
  have q: "alertQueue initRsi = []"
    by (simp add: initRsi_def)
  from edge_trigger_traces [OF h, of "Fin 1" "Fin 2" "Fin 3" "Fin 4"]
    edge_trigger_traces [OF h, of "Fin 1" "Fin 2" "Fin 3" "Fin 3"]
  show ?thesis using h by (simp add: q)
qed



text \<open>
  C8. Forming events are ignored. On a kline whose closed flag \<open>k.x\<close> is false the body
  of the handler returns normally with the state it was given, in both programs: no
  window, no alert state and no queue changes.
\<close>

theorem forming_ignored:
  "rsiBody calc (Kline symbol False c v) st = Inr st
   \<and> rsiOnMessage calc (Kline symbol False c v) st = st
   \<and> volBody (Kline symbol False c v) vst = Inr vst
   \<and> volOnMessage (Kline symbol False c v) vst = vst"
  by (simp add: rsiBody_def rsiOnMessage_def volBody_def volOnMessage_def)

theorem forming_ignored_witness:
  "rsiOnMessage (\<lambda>arr. [Fin 90]) (Kline ''btcusdt'' False (Fin 2) (Fin 5)) initRsi = initRsi
   \<and> volOnMessage (Kline ''btcusdt'' False (Fin 2) (Fin 5)) initVol = initVol"
  using forming_ignored [of "\<lambda>arr. [Fin 90]" "''btcusdt''" "Fin 2" "Fin 5" initRsi initVol]
  by simp

text \<open>
  C9. Per-symbol isolation. A frame that is not a frame of symbol \<open>B\<close> (a frame of
  another symbol, well-formed or throwing, or a frame whose symbol cannot be read) leaves
  the window of \<open>B\<close>, the alert state of \<open>B\<close> and the alerts of \<open>B\<close> in the queue
  unchanged. Two runs from the same state whose frame sequences differ only in frames of
  symbol \<open>A\<close> end with the same window, alert state and queued alerts for every other
  symbol \<open>B\<close>.
\<close>

theorem per_symbol_isolation:
  "(msgSymbol msg \<noteq> Some B \<longrightarrow>
      rsiView B (rsiOnMessage calc msg st) = rsiView B st
      \<and> volView B (volOnMessage msg vst) = volView B vst)
   \<and> (B \<noteq> A \<and> filter (notFor A) ms1 = filter (notFor A) ms2 \<longrightarrow>
      rsiView B (rsiRun calc ms1 st) = rsiView B (rsiRun calc ms2 st)
      \<and> volView B (volRun ms1 vst) = volView B (volRun ms2 vst))"
proof -
  have "rsiView B (rsiRun calc ms1 st) = rsiView B (rsiRun calc ms2 st)"
    if "B \<noteq> A" "filter (notFor A) ms1 = filter (notFor A) ms2"
    using that rsi_run_filter [of B A calc ms1 st] rsi_run_filter [of B A calc ms2 st] by simp
  moreover have "volView B (volRun ms1 vst) = volView B (volRun ms2 vst)"
    if "B \<noteq> A" "filter (notFor A) ms1 = filter (notFor A) ms2"
    using that vol_run_filter [of B A ms1 vst] vol_run_filter [of B A ms2 vst] by simp
  ultimately show ?thesis
    by (simp add: rsi_step_other vol_step_other)
qed

theorem per_symbol_isolation_witness:
  "msgSymbol (NoKline ''ethusdt'') \<noteq> Some ''btcusdt''
   \<and> rsiView ''btcusdt'' (rsiOnMessage (\<lambda>arr. [Fin 90]) (NoKline ''ethusdt'') initRsi)
       = rsiView ''btcusdt'' initRsi
   \<and> ''btcusdt'' \<noteq> ''ethusdt''
   \<and> filter (notFor ''ethusdt'')
        [Kline ''ethusdt'' True (Fin 1) (Fin 1), Kline ''btcusdt'' True (Fin 2) (Fin 2)]
       = filter (notFor ''ethusdt'')
        [Kline ''btcusdt'' True (Fin 2) (Fin 2), NoKline ''ethusdt'']
   \<and> rsiView ''btcusdt'' (rsiRun (\<lambda>arr. [Fin 90])
        [Kline ''ethusdt'' True (Fin 1) (Fin 1), Kline ''btcusdt'' True (Fin 2) (Fin 2)] initRsi)
       = rsiView ''btcusdt'' (rsiRun (\<lambda>arr. [Fin 90])
        [Kline ''btcusdt'' True (Fin 2) (Fin 2), NoKline ''ethusdt''] initRsi)
   \<and> volView ''btcusdt'' (volRun
        [Kline ''ethusdt'' True (Fin 1) (Fin 1), Kline ''btcusdt'' True (Fin 2) (Fin 2)] initVol)
       = volView ''btcusdt'' (volRun
        [Kline ''btcusdt'' True (Fin 2) (Fin 2), NoKline ''ethusdt''] initVol)"
proof -
  have a: "msgSymbol (NoKline ''ethusdt'') \<noteq> Some ''btcusdt''" by simp
  have b: "''btcusdt'' \<noteq> ''ethusdt''" by simp
  have c: "filter (notFor ''ethusdt'')
        [Kline ''ethusdt'' True (Fin 1) (Fin 1), Kline ''btcusdt'' True (Fin 2) (Fin 2)]
       = filter (notFor ''ethusdt'')
        [Kline ''btcusdt'' True (Fin 2) (Fin 2), NoKline ''ethusdt'']"
    by (simp add: notFor_def)
  from per_symbol_isolation [of "NoKline ''ethusdt''" "''btcusdt''" "\<lambda>arr. [Fin 90]" initRsi
      initVol "''ethusdt''"
      "[Kline ''ethusdt'' True (Fin 1) (Fin 1), Kline ''btcusdt'' True (Fin 2) (Fin 2)]"
      "[Kline ''btcusdt'' True (Fin 2) (Fin 2), NoKline ''ethusdt'']"]
  show ?thesis using a b c by blast
qed



end
